theory Spec2Isabelle
  imports Complex_Main "HOL-Library.Char_ord" "HOL-Library.List_Lexorder" "HOL-Library.Multiset"
begin

section \<open>The accident table\<close>

text \<open>
  \<^verbatim>\<open>dashboard.py\<close> loads a CSV file into a pandas data frame, derives two categorical
  columns from it once (lines 12 to 22) and then answers every change of the three
  dropdowns with \<^verbatim>\<open>update_dashboard\<close> (lines 98 to 158), which filters the frame and
  recomputes the figures.

  A data frame is modelled by its column index (the names of the columns it has, in
  order) and its rows. A row has one typed field for each column the program ever reads
  or writes; a field is meaningful only when its name is in the column index, and every
  access to a column that is not there is a \<open>KeyError\<close>, as in pandas. Floating-point
  cells are exact rationals, a missing cell (NaN, NaT) is \<open>None\<close>. Only the hour of day
  of a parsed \<^verbatim>\<open>Start_Time\<close> is kept, the one thing the program reads of it.
\<close>

datatype error = KeyError string | ValueError string

record row =
  State :: string
  Severity :: int
  City :: string
  Start_Lat :: rat
  Start_Lng :: rat
  Start_Time :: "nat option"
  Hour :: "rat option"
  Precipitation :: "rat option"
  Hour_Group :: "string option"
  Precipitation_Bin :: "string option"

record frame =
  columns :: "string list"
  rows :: "row list"

text \<open>\<^verbatim>\<open>df[name] = ...\<close>: an existing column is overwritten in place, a new one is appended
  to the column index.\<close>

definition assign :: "string \<Rightarrow> (row \<Rightarrow> row) \<Rightarrow> frame \<Rightarrow> frame" where
  "assign name upd df =
     \<lparr>columns = (if name \<in> set (columns df) then columns df else columns df @ [name]),
      rows = map upd (rows df)\<rparr>"

text \<open>\<^verbatim>\<open>df[name]\<close> for reading: the continuation runs only when the column exists.\<close>

definition getcol :: "frame \<Rightarrow> string \<Rightarrow> (error + 'a) \<Rightarrow> (error + 'a)" where
  "getcol df name k = (if name \<in> set (columns df) then k else Inl (KeyError name))"

definition has_cols :: "string list \<Rightarrow> frame \<Rightarrow> bool" where
  "has_cols names df = list_all (\<lambda>c. c \<in> set (columns df)) names"

section \<open>Dataset preparation (lines 12 to 22)\<close>

text \<open>\<^verbatim>\<open>pd.cut(x, bins, labels)\<close> with the default \<^verbatim>\<open>right=True\<close>: the label of the first
  interval \<open>(lo, hi]\<close> that holds the value, and a missing value when none does.\<close>

fun cut :: "rat list \<Rightarrow> string list \<Rightarrow> rat \<Rightarrow> string option" where
  "cut (lo # hi # bins) (l # labels) x =
     (if lo < x \<and> x \<le> hi then Some l else cut (hi # bins) labels x)"
| "cut _ _ _ = None"

definition cut_cell :: "rat list \<Rightarrow> string list \<Rightarrow> rat option \<Rightarrow> string option" where
  "cut_cell bins labels v = (case v of None \<Rightarrow> None | Some x \<Rightarrow> cut bins labels x)"

definition hour_bins :: "rat list" where
  "hour_bins = [-1, 5, 11, 17, 23]"

definition hour_labels :: "string list" where
  "hour_labels = [''Night'', ''Morning'', ''Afternoon'', ''Evening'']"

text \<open>The edges of the precipitation bins are the decimal numbers as the source writes
  them; the rounding of an edge to the nearest floating-point number is not modelled.\<close>

definition precip_bins :: "rat list" where
  "precip_bins = [- (1 / 100), 1 / 100, 1 / 10, 1 / 2, 1, 5, 50]"

definition precip_labels :: "string list" where
  "precip_labels = [''None'', ''Trace'', ''Light'', ''Moderate'', ''Heavy'', ''Extreme'']"

definition ensure_hour :: "frame \<Rightarrow> error + frame" where
  "ensure_hour df =
     (if ''Hour'' \<notin> set (columns df)
      then getcol df ''Start_Time''
             (Inr (assign ''Hour'' (\<lambda>r. r\<lparr>Hour := map_option of_nat (Start_Time r)\<rparr>) df))
      else Inr df)"

definition add_hour_group :: "frame \<Rightarrow> frame" where
  "add_hour_group df =
     assign ''Hour_Group'' (\<lambda>r. r\<lparr>Hour_Group := cut_cell hour_bins hour_labels (Hour r)\<rparr>) df"

definition add_precip_bin :: "frame \<Rightarrow> frame" where
  "add_precip_bin df =
     (if ''Precipitation(in)'' \<in> set (columns df)
      then assign ''Precipitation_Bin''
             (\<lambda>r. r\<lparr>Precipitation_Bin := cut_cell precip_bins precip_labels (Precipitation r)\<rparr>) df
      else df)"

definition prepare :: "frame \<Rightarrow> error + frame" where
  "prepare raw =
     (case ensure_hour raw of
        Inl e \<Rightarrow> Inl e
      | Inr df \<Rightarrow> Inr (add_precip_bin (add_hour_group df)))"

section \<open>The library's sorting routine\<close>

text \<open>
  \<^verbatim>\<open>value_counts\<close> and \<^verbatim>\<open>sort_values(..., ascending=False)\<close> order a table by its counts
  with the sorting routine of the library, called with its default kind, which the
  library documents as not stable. The routine is a parameter of the model: it maps the
  counts to the positions in their new order. What the library promises of it is
  \<open>sorts_desc\<close>: the positions are a permutation and the counts, read in that order,
  never increase. The order among equal counts is the routine's own.
\<close>

type_synonym argsort = "nat list \<Rightarrow> nat list"

definition sorts_desc :: "argsort \<Rightarrow> bool" where
  "sorts_desc srt =
     (\<forall>cs. mset (srt cs) = mset [0..<length cs] \<and>
           sorted_wrt (\<lambda>a b. b \<le> a) (map (\<lambda>i. cs ! i) (srt cs)))"

definition sort_values_desc :: "argsort \<Rightarrow> ('a \<times> nat) list \<Rightarrow> ('a \<times> nat) list" where
  "sort_values_desc srt tbl =
     map (\<lambda>i. tbl ! i) (filter (\<lambda>i. i < length tbl) (srt (map snd tbl)))"

text \<open>Two routines that keep the promise, to run the model on examples: one leaves equal
  counts in their order, the other (sort ascending, then read backwards) turns them
  round. Neither is the library's routine on every input; each theorem about the
  callback holds for every routine that keeps the promise.\<close>

definition stable_argsort :: argsort where
  "stable_argsort cs = map snd (sort_key (\<lambda>p. - int (fst p)) (zip cs [0..<length cs]))"

definition reversing_argsort :: argsort where
  "reversing_argsort cs = rev (map snd (sort_key (\<lambda>p. int (fst p)) (zip cs [0..<length cs])))"

section \<open>Series and group operations\<close>

text \<open>\<^verbatim>\<open>Series.mode()[0]\<close>: the modes come sorted, so this is the smallest of the most
  frequent values; on an empty series \<^verbatim>\<open>[0]\<close> finds no label.\<close>

definition series_mode :: "int list \<Rightarrow> int list" where
  "series_mode xs =
     sort (filter (\<lambda>v. list_all (\<lambda>w. count_list xs w \<le> count_list xs v) xs) (remdups xs))"

definition first_mode :: "int list \<Rightarrow> error + int" where
  "first_mode xs = (case series_mode xs of [] \<Rightarrow> Inl (KeyError ''0'') | m # _ \<Rightarrow> Inr m)"

text \<open>\<^verbatim>\<open>value_counts()\<close> of a categorical column counts every category, the ones that
  do not occur with count 0, and sorts the counts descending.\<close>

definition category_counts :: "string list \<Rightarrow> string option list \<Rightarrow> (string \<times> nat) list" where
  "category_counts cats col = map (\<lambda>c. (c, count_list col (Some c))) cats"

definition value_counts_cat ::
    "argsort \<Rightarrow> string list \<Rightarrow> string option list \<Rightarrow> (string \<times> nat) list" where
  "value_counts_cat srt cats col = sort_values_desc srt (category_counts cats col)"

text \<open>\<^verbatim>\<open>idxmax()\<close>: the label of the first largest count; an empty series has none.\<close>

fun idxmax :: "('a \<times> nat) list \<Rightarrow> error + 'a" where
  "idxmax [] = Inl (ValueError ''attempt to get argmax of an empty sequence'')"
| "idxmax (x # xs) = Inr (fst (foldl (\<lambda>best y. if snd best < snd y then y else best) x xs))"

text \<open>\<^verbatim>\<open>Series.mean()\<close> skips missing values and is NaN when nothing is left.\<close>

datatype pyfloat = NaN | Float rat

definition mean :: "rat option list \<Rightarrow> pyfloat" where
  "mean col =
     (let xs = concat (map (\<lambda>v. case v of None \<Rightarrow> [] | Some x \<Rightarrow> [x]) col)
      in if xs = [] then NaN else Float (sum_list xs / of_nat (length xs)))"

text \<open>\<^verbatim>\<open>value_counts(normalize=True) * 100\<close> of the severity column: the values that
  occur, ordered by descending count, as percentages.\<close>

definition value_counts_int :: "argsort \<Rightarrow> int list \<Rightarrow> (int \<times> nat) list" where
  "value_counts_int srt xs =
     sort_values_desc srt (map (\<lambda>v. (v, count_list xs v)) (rev (remdups (rev xs))))"

definition percentages :: "(int \<times> nat) list \<Rightarrow> (int \<times> rat) list" where
  "percentages tbl =
     map (\<lambda>(v, c). (v, of_nat c / of_nat (sum_list (map snd tbl)) * 100)) tbl"

text \<open>\<^verbatim>\<open>groupby(col, observed=True).size()\<close> on a categorical column: one group for each
  category that occurs, in category order; rows with a missing key are in no group.\<close>

definition groupby_size_cat :: "string list \<Rightarrow> string option list \<Rightarrow> (string \<times> nat) list" where
  "groupby_size_cat cats col = filter (\<lambda>p. 0 < snd p) (category_counts cats col)"

text \<open>\<^verbatim>\<open>groupby("State").size()\<close>: one group for each state that occurs, keys sorted.\<close>

definition groupby_size :: "string list \<Rightarrow> (string \<times> nat) list" where
  "groupby_size col = map (\<lambda>s. (s, count_list col s)) (sort (remdups col))"

section \<open>The callback (lines 98 to 158)\<close>

text \<open>A dropdown delivers \<^verbatim>\<open>None\<close> or a list of strings; \<^verbatim>\<open>if selected:\<close> is false for
  both \<^verbatim>\<open>None\<close> and the empty list.\<close>

record selection =
  selected_states :: "string list option"
  selected_hour_groups :: "string list option"
  selected_precip_bins :: "string list option"

definition truthy :: "string list option \<Rightarrow> bool" where
  "truthy s = (case s of None \<Rightarrow> False | Some xs \<Rightarrow> xs \<noteq> [])"

text \<open>\<^verbatim>\<open>isin\<close> on a categorical column: a missing value is in no list of labels.\<close>

definition cat_isin :: "string option \<Rightarrow> string list \<Rightarrow> bool" where
  "cat_isin v xs = (case v of None \<Rightarrow> False | Some g \<Rightarrow> g \<in> set xs)"

text \<open>\<^verbatim>\<open>astype(str)\<close>: the label of the category, and \<^verbatim>\<open>nan\<close> for a missing value.\<close>

definition astype_str :: "string option \<Rightarrow> string" where
  "astype_str v = (case v of None \<Rightarrow> ''nan'' | Some g \<Rightarrow> g)"

definition keep :: "(row \<Rightarrow> bool) \<Rightarrow> frame \<Rightarrow> frame" where
  "keep p df = df\<lparr>rows := filter p (rows df)\<rparr>"

text \<open>Lines 99 to 106.\<close>

definition filter_states :: "selection \<Rightarrow> frame \<Rightarrow> error + frame" where
  "filter_states sel df =
     (if truthy (selected_states sel)
      then getcol df ''State''
             (Inr (keep (\<lambda>r. State r \<in> set (the (selected_states sel))) df))
      else Inr df)"

definition filter_hour_groups :: "selection \<Rightarrow> frame \<Rightarrow> error + frame" where
  "filter_hour_groups sel df =
     (if truthy (selected_hour_groups sel)
      then getcol df ''Hour_Group''
             (Inr (keep (\<lambda>r. cat_isin (Hour_Group r) (the (selected_hour_groups sel))) df))
      else Inr df)"

definition filter_precip_bins :: "selection \<Rightarrow> frame \<Rightarrow> error + frame" where
  "filter_precip_bins sel df =
     (if truthy (selected_precip_bins sel)
      then getcol df ''Precipitation_Bin''
             (Inr (keep (\<lambda>r. astype_str (Precipitation_Bin r) \<in> set (the (selected_precip_bins sel))) df))
      else Inr df)"

definition filter_frame :: "frame \<Rightarrow> selection \<Rightarrow> error + frame" where
  "filter_frame df sel =
     (case filter_states sel df of
        Inl e \<Rightarrow> Inl e
      | Inr d1 \<Rightarrow>
          (case filter_hour_groups sel d1 of
             Inl e \<Rightarrow> Inl e
           | Inr d2 \<Rightarrow> filter_precip_bins sel d2))"

text \<open>What the callback hands to the cards and figures. A card shows a number or a
  string, so a KPI is either.\<close>

datatype kpi = Label string | Number int

record aggregate =
  total_accidents :: nat
  most_common_severity :: kpi
  busiest_hour_group :: kpi
  avg_precip :: pyfloat
  severity_counts :: "(int \<times> rat) list"
  accidents_by_hour :: "(string \<times> nat) list"
  accidents_by_precip :: "(string \<times> nat) list"
  accidents_by_state :: "(string \<times> nat) list"
  map_rows :: "row list"

text \<open>Lines 109 to 112.\<close>

definition kpi_severity :: "frame \<Rightarrow> error + kpi" where
  "kpi_severity fdf =
     (if 0 < length (rows fdf)
      then getcol fdf ''Severity'' (map_sum id Number (first_mode (map Severity (rows fdf))))
      else Inr (Label ''N/A''))"

definition kpi_hour_group :: "argsort \<Rightarrow> frame \<Rightarrow> error + kpi" where
  "kpi_hour_group srt fdf =
     (if 0 < length (rows fdf)
      then getcol fdf ''Hour_Group''
             (map_sum id Label (idxmax (value_counts_cat srt hour_labels (map Hour_Group (rows fdf)))))
      else Inr (Label ''N/A''))"

definition kpi_precip :: "frame \<Rightarrow> pyfloat" where
  "kpi_precip fdf =
     (if ''Precipitation(in)'' \<in> set (columns fdf) then mean (map Precipitation (rows fdf))
      else Float 0)"

text \<open>Lines 146 to 155. The figures themselves are drawn by the plotting library; of
  \<^verbatim>\<open>scatter_mapbox\<close> the model keeps that it refuses a frame without the columns it is
  told to read.\<close>

definition map_subset :: "frame \<Rightarrow> error + row list" where
  "map_subset fdf =
     (if has_cols [''Start_Lat'', ''Start_Lng'', ''City'', ''Severity''] fdf then Inr (rows fdf)
      else Inl (ValueError ''not the name of a column in data_frame''))"

text \<open>The columns a call of the callback reads whatever the selection is.\<close>

definition pipeline_cols :: "string list" where
  "pipeline_cols =
     [''Severity'', ''Hour_Group'', ''Precipitation_Bin'', ''State'', ''Start_Lat'', ''Start_Lng'',
      ''City'']"

text \<open>Lines 122 to 158, in the order in which the source reads the columns.\<close>

definition charts :: "argsort \<Rightarrow> frame \<Rightarrow> kpi \<Rightarrow> kpi \<Rightarrow> error + aggregate" where
  "charts srt fdf sev busiest =
     getcol fdf ''Severity''
      (getcol fdf ''Hour_Group''
        (getcol fdf ''Precipitation_Bin''
          (getcol fdf ''State''
            (case map_subset fdf of
               Inl e \<Rightarrow> Inl e
             | Inr pts \<Rightarrow>
                 Inr \<lparr>total_accidents = length (rows fdf),
                      most_common_severity = sev,
                      busiest_hour_group = busiest,
                      avg_precip = kpi_precip fdf,
                      severity_counts =
                        percentages (value_counts_int srt (map Severity (rows fdf))),
                      accidents_by_hour =
                        groupby_size_cat hour_labels (map Hour_Group (rows fdf)),
                      accidents_by_precip =
                        groupby_size_cat precip_labels (map Precipitation_Bin (rows fdf)),
                      accidents_by_state =
                        take 10 (sort_values_desc srt (groupby_size (map State (rows fdf)))),
                      map_rows = pts\<rparr>))))"

text \<open>Lines 109 to 158: the two KPIs that can fail first, then the rest.\<close>

definition aggregate_frame :: "argsort \<Rightarrow> frame \<Rightarrow> error + aggregate" where
  "aggregate_frame srt fdf =
     (case kpi_severity fdf of
        Inl e \<Rightarrow> Inl e
      | Inr sev \<Rightarrow>
          (case kpi_hour_group srt fdf of
             Inl e \<Rightarrow> Inl e
           | Inr busiest \<Rightarrow> charts srt fdf sev busiest))"

text \<open>The whole callback: the global table \<^verbatim>\<open>df\<close> is its second argument.\<close>

definition update_dashboard :: "argsort \<Rightarrow> frame \<Rightarrow> selection \<Rightarrow> error + aggregate" where
  "update_dashboard srt df sel =
     (case filter_frame df sel of
        Inl e \<Rightarrow> Inl e
      | Inr fdf \<Rightarrow> aggregate_frame srt fdf)"

text \<open>One run of the program: the table is prepared at start-up, then the callback
  answers a selection. (The layout built in between, lines 27 to 81, is not modelled.)\<close>

definition run_dashboard :: "argsort \<Rightarrow> frame \<Rightarrow> selection \<Rightarrow> error + aggregate" where
  "run_dashboard srt raw sel =
     (case prepare raw of
        Inl e \<Rightarrow> Inl e
      | Inr df \<Rightarrow> update_dashboard srt df sel)"

section \<open>The specification's reading of a selection\<close>





text \<open>One dimension of a selection is strengthened when a constraint is added where
  there was none, or when values are removed from its set and some are left.\<close>

definition strengthens :: "string list option \<Rightarrow> string list option \<Rightarrow> bool" where
  "strengthens s' s =
     (case s of
        None \<Rightarrow> True
      | Some xs \<Rightarrow>
          xs = [] \<or> (case s' of None \<Rightarrow> False | Some ys \<Rightarrow> ys \<noteq> [] \<and> set ys \<subseteq> set xs))"

definition stronger :: "selection \<Rightarrow> selection \<Rightarrow> bool" where
  "stronger sel' sel =
     (strengthens (selected_states sel') (selected_states sel) \<and>
      strengthens (selected_hour_groups sel') (selected_hour_groups sel) \<and>
      strengthens (selected_precip_bins sel') (selected_precip_bins sel))"

text \<open>The rows that lines 101 to 106 keep.\<close>

definition kept :: "selection \<Rightarrow> row \<Rightarrow> bool" where
  "kept sel r =
     ((if truthy (selected_states sel) then State r \<in> set (the (selected_states sel)) else True) \<and>
      (if truthy (selected_hour_groups sel)
       then cat_isin (Hour_Group r) (the (selected_hour_groups sel)) else True) \<and>
      (if truthy (selected_precip_bins sel)
       then astype_str (Precipitation_Bin r) \<in> set (the (selected_precip_bins sel)) else True))"

section \<open>Tables used in the examples\<close>

text \<open>The three-row table of the specification's scenarios, with an \<^verbatim>\<open>Hour\<close> column and
  a precipitation column; the same table without the precipitation column; the table as
  the real file has it, with \<^verbatim>\<open>Start_Time\<close> in place of \<^verbatim>\<open>Hour\<close>; a table whose only row
  has no hour; and a table of four states, two with one accident and two with two.\<close>

definition mk_row :: "string \<Rightarrow> int \<Rightarrow> rat option \<Rightarrow> rat option \<Rightarrow> row" where
  "mk_row st sev h p =
     \<lparr>State = st, Severity = sev, City = '''', Start_Lat = 0, Start_Lng = 0,
      Start_Time = None, Hour = h, Precipitation = p,
      Hour_Group = None, Precipitation_Bin = None\<rparr>"

definition scenario_rows :: "row list" where
  "scenario_rows =
     [mk_row ''CA'' 2 (Some 3) (Some 0), mk_row ''CA'' 3 (Some 14) (Some (1 / 5)),
      mk_row ''NY'' 2 (Some 14) None]"

definition scenario_raw :: frame where
  "scenario_raw =
     \<lparr>columns = [''State'', ''Severity'', ''City'', ''Start_Lat'', ''Start_Lng'', ''Hour'',
                 ''Precipitation(in)''],
      rows = scenario_rows\<rparr>"

definition scenario_df :: frame where
  "scenario_df = add_precip_bin (add_hour_group scenario_raw)"

definition no_precip_raw :: frame where
  "no_precip_raw =
     \<lparr>columns = [''State'', ''Severity'', ''City'', ''Start_Lat'', ''Start_Lng'', ''Hour''],
      rows = scenario_rows\<rparr>"

definition timestamp_raw :: frame where
  "timestamp_raw =
     \<lparr>columns = [''State'', ''Severity'', ''City'', ''Start_Lat'', ''Start_Lng'', ''Start_Time'',
                 ''Precipitation(in)''],
      rows = [(mk_row ''CA'' 2 None (Some 0))\<lparr>Start_Time := Some 3\<rparr>]\<rparr>"

definition unknown_hour_raw :: frame where
  "unknown_hour_raw =
     \<lparr>columns = [''State'', ''Severity'', ''City'', ''Start_Lat'', ''Start_Lng'', ''Hour'',
                 ''Precipitation(in)''],
      rows = [mk_row ''CA'' 2 None (Some 0)]\<rparr>"

definition pairs_raw :: frame where
  "pairs_raw =
     \<lparr>columns = [''State'', ''Severity'', ''City'', ''Start_Lat'', ''Start_Lng'', ''Hour'',
                 ''Precipitation(in)''],
      rows = map (\<lambda>s. mk_row s 2 (Some 3) (Some 0))
               [''AK'', ''AL'', ''AR'', ''AR'', ''AZ'', ''AZ'']\<rparr>"

definition no_filters :: selection where
  "no_filters =
     \<lparr>selected_states = None, selected_hour_groups = None, selected_precip_bins = None\<rparr>"



definition ny_only :: selection where
  "ny_only =
     \<lparr>selected_states = Some [''NY''], selected_hour_groups = None, selected_precip_bins = None\<rparr>"

definition morning_only :: selection where
  "morning_only =
     \<lparr>selected_states = None, selected_hour_groups = Some [''Morning''],
      selected_precip_bins = None\<rparr>"

definition no_precip_df :: frame where
  "no_precip_df = add_precip_bin (add_hour_group no_precip_raw)"

definition unknown_hour_df :: frame where
  "unknown_hour_df = add_precip_bin (add_hour_group unknown_hour_raw)"

definition pairs_df :: frame where
  "pairs_df = add_precip_bin (add_hour_group pairs_raw)"

text \<open>The columns preparation may add to a raw table.\<close>

definition derived_columns :: "frame \<Rightarrow> string list" where
  "derived_columns raw =
     [''Hour'', ''Hour_Group''] @
     (if ''Precipitation(in)'' \<in> set (columns raw) then [''Precipitation_Bin''] else [])"

definition light_only :: selection where
  "light_only =
     \<lparr>selected_states = None, selected_hour_groups = None,
      selected_precip_bins = Some [''Light'']\<rparr>"

section \<open>The sorting routine's promise\<close>

lemma zip_upt_nth: "p \<in> set (zip cs [0..<length cs]) \<Longrightarrow> cs ! snd p = fst p"
  by (cases p) (auto simp: set_zip)

lemma sorts_desc_stable: "sorts_desc stable_argsort"
proof -
  have "mset (stable_argsort cs) = mset [0..<length cs]" for cs
  proof -
    have "mset (stable_argsort cs) = mset (map snd (zip cs [0..<length cs]))"
      by (simp only: stable_argsort_def mset_map mset_sort)
    also have "map snd (zip cs [0..<length cs]) = [0..<length cs]" by simp
    finally show ?thesis .
  qed
  moreover have "sorted_wrt (\<lambda>a b. b \<le> a) (map (\<lambda>i. cs ! i) (stable_argsort cs))" for cs
  proof -
    let ?S = "sort_key (\<lambda>p. - int (fst p)) (zip cs [0..<length cs])"
    have eq: "map (\<lambda>i. cs ! i) (stable_argsort cs) = map fst ?S"
      by (simp add: stable_argsort_def zip_upt_nth)
    have "sorted (map (\<lambda>p. - int (fst p)) ?S)" by (rule sorted_sort_key)
    then have "sorted_wrt (\<lambda>x y. fst y \<le> fst x) ?S"
      by (simp add: sorted_map)
    then show ?thesis unfolding eq by (simp add: sorted_wrt_map)
  qed
  ultimately show ?thesis by (simp add: sorts_desc_def)
qed

lemma sorts_desc_reversing: "sorts_desc reversing_argsort"
proof -
  have "mset (reversing_argsort cs) = mset [0..<length cs]" for cs
  proof -
    have "mset (reversing_argsort cs) = mset (map snd (zip cs [0..<length cs]))"
      by (simp only: reversing_argsort_def mset_map mset_sort mset_rev)
    also have "map snd (zip cs [0..<length cs]) = [0..<length cs]" by simp
    finally show ?thesis .
  qed
  moreover have "sorted_wrt (\<lambda>a b. b \<le> a) (map (\<lambda>i. cs ! i) (reversing_argsort cs))" for cs
  proof -
    let ?S = "sort_key (\<lambda>p. int (fst p)) (zip cs [0..<length cs])"
    have eq: "map (\<lambda>i. cs ! i) (reversing_argsort cs) = rev (map fst ?S)"
      by (simp add: reversing_argsort_def zip_upt_nth rev_map)
    have "sorted (map (\<lambda>p. int (fst p)) ?S)" by (rule sorted_sort_key)
    then have "sorted_wrt (\<lambda>x y. fst x \<le> fst y) ?S"
      by (simp add: sorted_map)
    then show ?thesis unfolding eq by (simp add: sorted_wrt_map sorted_wrt_rev)
  qed
  ultimately show ?thesis by (simp add: sorts_desc_def)
qed

lemma sort_values_desc_props:
  assumes "sorts_desc srt"
  shows "mset (sort_values_desc srt tbl) = mset tbl"
    and "sorted_wrt (\<lambda>a b. snd b \<le> snd a) (sort_values_desc srt tbl)"
proof -
  let ?is = "srt (map snd tbl)"
  have m: "mset ?is = mset [0..<length tbl]"
    using assms by (simp add: sorts_desc_def)
  then have range: "set ?is = {0..<length tbl}" by (metis mset_eq_setD set_upt)
  then have f: "filter (\<lambda>i. i < length tbl) ?is = ?is" by (auto simp: filter_id_conv)
  have e: "sort_values_desc srt tbl = map (\<lambda>i. tbl ! i) ?is"
    by (simp add: sort_values_desc_def f)
  have "mset (map (\<lambda>i. tbl ! i) ?is) = image_mset (\<lambda>i. tbl ! i) (mset [0..<length tbl])"
    using m by (metis mset_map)
  also have "\<dots> = mset (map (\<lambda>i. tbl ! i) [0..<length tbl])" by simp
  also have "\<dots> = mset tbl" by (simp add: map_nth)
  finally show "mset (sort_values_desc srt tbl) = mset tbl" using e by simp
  have s: "sorted_wrt (\<lambda>a b. b \<le> a) (map (\<lambda>i. map snd tbl ! i) ?is)"
    using assms by (simp add: sorts_desc_def)
  have "map (\<lambda>i. map snd tbl ! i) ?is = map snd (map (\<lambda>i. tbl ! i) ?is)"
    using range by auto
  with s show "sorted_wrt (\<lambda>a b. snd b \<le> snd a) (sort_values_desc srt tbl)"
    unfolding e by (simp add: sorted_wrt_map)
qed

lemma length_sort_values_desc:
  "sorts_desc srt \<Longrightarrow> length (sort_values_desc srt tbl) = length tbl"
  by (metis sort_values_desc_props(1) mset_eq_length)

lemma set_sort_values_desc:
  "sorts_desc srt \<Longrightarrow> set (sort_values_desc srt tbl) = set tbl"
  by (metis sort_values_desc_props(1) mset_eq_setD)

lemma sort_values_desc_Nil: "sort_values_desc srt [] = []"
  by (simp add: sort_values_desc_def)

section \<open>The filter\<close>

lemma filter_frame_Inr: "filter_frame df sel = Inr fdf \<Longrightarrow> fdf = keep (kept sel) df"
  by (auto simp: filter_frame_def filter_states_def filter_hour_groups_def
      filter_precip_bins_def getcol_def keep_def kept_def [abs_def]
      split: if_splits sum.splits)

lemma filter_frame_ok:
  assumes "has_cols [''State'', ''Hour_Group'', ''Precipitation_Bin''] df"
  shows "\<exists>fdf. filter_frame df sel = Inr fdf"
  using assms
  by (auto simp: filter_frame_def filter_states_def filter_hour_groups_def
      filter_precip_bins_def getcol_def keep_def has_cols_def split: sum.splits)

lemma columns_keep: "columns (keep p df) = columns df"
  by (simp add: keep_def)

lemma rows_keep: "rows (keep p df) = filter p (rows df)"
  by (simp add: keep_def)

lemma has_cols_keep: "has_cols cs (keep p df) = has_cols cs df"
  by (simp add: has_cols_def keep_def)

section \<open>The aggregation\<close>

lemma series_mode_nonempty:
  assumes "xs \<noteq> []"
  shows "series_mode xs \<noteq> []"
proof -
  let ?f = "count_list xs"
  have "finite (?f ` set xs)" "?f ` set xs \<noteq> {}" using assms by simp_all
  then have "Max (?f ` set xs) \<in> ?f ` set xs" by (rule Max_in)
  then obtain v where v: "v \<in> set xs" "?f v = Max (?f ` set xs)" by auto
  have "\<forall>w \<in> set xs. ?f w \<le> ?f v" using v(2) by simp
  with v(1) have "v \<in> set (series_mode xs)"
    by (simp add: series_mode_def list_all_iff)
  then show ?thesis by auto
qed

lemma first_mode_ok: "xs \<noteq> [] \<Longrightarrow> \<exists>m. first_mode xs = Inr m"
  using series_mode_nonempty [of xs] by (auto simp: first_mode_def split: list.splits)

lemma foldl_pick: "foldl (\<lambda>best y. if snd best < snd y then y else best) x xs \<in> set (x # xs)"
  by (induction xs arbitrary: x) auto

lemma idxmax_ok: "tbl \<noteq> [] \<Longrightarrow> \<exists>l. idxmax tbl = Inr l \<and> l \<in> fst ` set tbl"
proof (cases tbl)
  case Nil
  assume "tbl \<noteq> []"
  with Nil show ?thesis by simp
next
  case (Cons x xs)
  then show ?thesis using foldl_pick [of x xs] by auto
qed

lemma kpi_severity_ok:
  assumes "''Severity'' \<in> set (columns fdf)"
  shows "\<exists>k. kpi_severity fdf = Inr k \<and> (rows fdf = [] \<longrightarrow> k = Label ''N/A'')"
proof (cases "rows fdf = []")
  case True
  then show ?thesis by (simp add: kpi_severity_def)
next
  case False
  then obtain m where "first_mode (map Severity (rows fdf)) = Inr m"
    using first_mode_ok [of "map Severity (rows fdf)"] by auto
  with False assms show ?thesis by (simp add: kpi_severity_def getcol_def)
qed

lemma kpi_hour_group_ok:
  assumes "sorts_desc srt" and "''Hour_Group'' \<in> set (columns fdf)"
  shows "\<exists>k. kpi_hour_group srt fdf = Inr k \<and>
           (if rows fdf = [] then k = Label ''N/A'' else k \<in> Label ` set hour_labels)"
proof (cases "rows fdf = []")
  case True
  then show ?thesis by (simp add: kpi_hour_group_def)
next
  case False
  let ?t = "value_counts_cat srt hour_labels (map Hour_Group (rows fdf))"
  have "length ?t = length hour_labels"
    using assms(1) by (simp add: value_counts_cat_def length_sort_values_desc category_counts_def)
  then have "?t \<noteq> []" by (auto simp: hour_labels_def)
  then obtain l where l: "idxmax ?t = Inr l" "l \<in> fst ` set ?t"
    using idxmax_ok by blast
  have "fst ` set ?t = set hour_labels"
    using assms(1)
    by (simp add: value_counts_cat_def set_sort_values_desc category_counts_def image_image)
  with l False assms(2) show ?thesis by (simp add: kpi_hour_group_def getcol_def)
qed

lemma charts_Inr:
  assumes "charts srt fdf sev busiest = Inr r"
  shows "has_cols pipeline_cols fdf"
    and "r = \<lparr>total_accidents = length (rows fdf),
              most_common_severity = sev,
              busiest_hour_group = busiest,
              avg_precip = kpi_precip fdf,
              severity_counts = percentages (value_counts_int srt (map Severity (rows fdf))),
              accidents_by_hour = groupby_size_cat hour_labels (map Hour_Group (rows fdf)),
              accidents_by_precip =
                groupby_size_cat precip_labels (map Precipitation_Bin (rows fdf)),
              accidents_by_state =
                take 10 (sort_values_desc srt (groupby_size (map State (rows fdf)))),
              map_rows = rows fdf\<rparr>"
  using assms
  by (auto simp: charts_def getcol_def map_subset_def has_cols_def pipeline_cols_def
      split: if_splits)

lemma charts_ok:
  assumes "has_cols pipeline_cols fdf"
  shows "\<exists>r. charts srt fdf sev busiest = Inr r"
  using assms
  by (simp add: charts_def getcol_def map_subset_def has_cols_def pipeline_cols_def)

lemma aggregate_frame_Inr:
  assumes "aggregate_frame srt fdf = Inr r"
  shows "has_cols pipeline_cols fdf"
    and "kpi_severity fdf = Inr (most_common_severity r)"
    and "kpi_hour_group srt fdf = Inr (busiest_hour_group r)"
    and "total_accidents r = length (rows fdf)"
    and "avg_precip r = kpi_precip fdf"
    and "accidents_by_hour r = groupby_size_cat hour_labels (map Hour_Group (rows fdf))"
    and "accidents_by_precip r =
           groupby_size_cat precip_labels (map Precipitation_Bin (rows fdf))"
    and "accidents_by_state r =
           take 10 (sort_values_desc srt (groupby_size (map State (rows fdf))))"
    and "map_rows r = rows fdf"
proof -
  from assms obtain sev busiest where k: "kpi_severity fdf = Inr sev"
    "kpi_hour_group srt fdf = Inr busiest" "charts srt fdf sev busiest = Inr r"
    by (auto simp: aggregate_frame_def split: sum.splits)
  note c = charts_Inr [OF k(3)]
  show "has_cols pipeline_cols fdf" by (rule c(1))
  show "kpi_severity fdf = Inr (most_common_severity r)" using k(1) c(2) by simp
  show "kpi_hour_group srt fdf = Inr (busiest_hour_group r)" using k(2) c(2) by simp
  show "total_accidents r = length (rows fdf)" using c(2) by simp
  show "avg_precip r = kpi_precip fdf" using c(2) by simp
  show "accidents_by_hour r = groupby_size_cat hour_labels (map Hour_Group (rows fdf))"
    using c(2) by simp
  show "accidents_by_precip r =
          groupby_size_cat precip_labels (map Precipitation_Bin (rows fdf))"
    using c(2) by simp
  show "accidents_by_state r =
          take 10 (sort_values_desc srt (groupby_size (map State (rows fdf))))"
    using c(2) by simp
  show "map_rows r = rows fdf" using c(2) by simp
qed

lemma aggregate_frame_ok:
  assumes "sorts_desc srt" and "has_cols pipeline_cols fdf"
  shows "\<exists>r. aggregate_frame srt fdf = Inr r"
proof -
  have "''Severity'' \<in> set (columns fdf)" "''Hour_Group'' \<in> set (columns fdf)"
    using assms(2) by (simp_all add: has_cols_def pipeline_cols_def)
  then obtain sev busiest where "kpi_severity fdf = Inr sev"
    "kpi_hour_group srt fdf = Inr busiest"
    using kpi_severity_ok kpi_hour_group_ok [OF assms(1)] by blast
  then show ?thesis using charts_ok [OF assms(2)] by (simp add: aggregate_frame_def)
qed

lemma update_dashboard_Inr:
  assumes "update_dashboard srt df sel = Inr r"
  shows "aggregate_frame srt (keep (kept sel) df) = Inr r" and "has_cols pipeline_cols df"
proof -
  from assms obtain fdf where f: "filter_frame df sel = Inr fdf" "aggregate_frame srt fdf = Inr r"
    by (auto simp: update_dashboard_def split: sum.splits)
  from filter_frame_Inr [OF f(1)] f(2)
  show a: "aggregate_frame srt (keep (kept sel) df) = Inr r" by simp
  from aggregate_frame_Inr(1) [OF a] show "has_cols pipeline_cols df"
    by (simp add: has_cols_keep)
qed

lemma update_dashboard_ok:
  assumes "sorts_desc srt" and "has_cols pipeline_cols df"
  shows "\<exists>r. update_dashboard srt df sel = Inr r"
proof -
  have "has_cols [''State'', ''Hour_Group'', ''Precipitation_Bin''] df"
    using assms(2) by (simp add: has_cols_def pipeline_cols_def)
  then obtain fdf where f: "filter_frame df sel = Inr fdf" using filter_frame_ok by blast
  then have "fdf = keep (kept sel) df" by (rule filter_frame_Inr)
  then have "has_cols pipeline_cols fdf" using assms(2) by (simp add: has_cols_keep)
  from aggregate_frame_ok [OF assms(1) this] f show ?thesis
    by (simp add: update_dashboard_def)
qed

section \<open>The total count\<close>



lemma scenario_df_cols: "has_cols pipeline_cols scenario_df"
  by (simp add: has_cols_def pipeline_cols_def scenario_df_def scenario_raw_def
      add_precip_bin_def add_hour_group_def assign_def)

lemma prepare_scenario: "prepare scenario_raw = Inr scenario_df"
  by (simp add: prepare_def ensure_hour_def scenario_df_def scenario_raw_def)



section \<open>An empty selection\<close>

text \<open>
  C10. An empty list in a dimension of the selection is treated as no selection at all:
  for every table, sorting routine and selection, the callback's answer (result or error)
  with an empty list in a dimension is its answer with that dimension absent.
\<close>

theorem empty_selection_is_absent:
  "update_dashboard srt df (sel\<lparr>selected_states := Some []\<rparr>) =
     update_dashboard srt df (sel\<lparr>selected_states := None\<rparr>) \<and>
   update_dashboard srt df (sel\<lparr>selected_hour_groups := Some []\<rparr>) =
     update_dashboard srt df (sel\<lparr>selected_hour_groups := None\<rparr>) \<and>
   update_dashboard srt df (sel\<lparr>selected_precip_bins := Some []\<rparr>) =
     update_dashboard srt df (sel\<lparr>selected_precip_bins := None\<rparr>)"
  by (simp add: update_dashboard_def filter_frame_def filter_states_def
      filter_hour_groups_def filter_precip_bins_def truthy_def cong: sum.case_cong)

section \<open>The grouped counts\<close>

lemma count_list_map: "count_list (map f xs) v = length (filter (\<lambda>x. f x = v) xs)"
  by (induction xs) auto

lemma groupby_size_cat_entry:
  assumes "p \<in> set (groupby_size_cat cats (map f xs))"
  shows "1 \<le> snd p \<and> snd p = length (filter (\<lambda>r. f r = Some (fst p)) xs)"
  using assms by (auto simp: groupby_size_cat_def category_counts_def count_list_map)

lemma scenario_returns: "\<exists>res. update_dashboard stable_argsort scenario_df sel = Inr res"
  by (rule update_dashboard_ok [OF sorts_desc_stable scenario_df_cols])

text \<open>
  C7. Whenever the callback returns a result, every group listed in the counts by hour
  group and in the counts by precipitation bin has a count of at least 1, and that count
  is the number of filtered rows in the group: a category no filtered row falls in is
  left out of the table.
\<close>

theorem grouped_counts_at_least_one:
  assumes "update_dashboard srt df sel = Inr res"
  shows "(\<forall>p \<in> set (accidents_by_hour res).
            1 \<le> snd p \<and>
            snd p = length (filter (\<lambda>r. Hour_Group r = Some (fst p)) (map_rows res))) \<and>
         (\<forall>p \<in> set (accidents_by_precip res).
            1 \<le> snd p \<and>
            snd p = length (filter (\<lambda>r. Precipitation_Bin r = Some (fst p)) (map_rows res)))"
proof -
  note a = aggregate_frame_Inr [OF update_dashboard_Inr(1) [OF assms]]
  show ?thesis
    unfolding a(6) a(7) a(9) using groupby_size_cat_entry by blast
qed

theorem grouped_counts_at_least_one_witness:
  "\<not> isl (update_dashboard stable_argsort scenario_df no_filters) \<and>
   map_sum id (\<lambda>res. list_all (\<lambda>p. 1 \<le> snd p) (accidents_by_hour res @ accidents_by_precip res))
     (update_dashboard stable_argsort scenario_df no_filters) = Inr True"
proof -
  obtain res where r: "update_dashboard stable_argsort scenario_df no_filters = Inr res"
    using scenario_returns by blast
  from grouped_counts_at_least_one [OF r]
  have "list_all (\<lambda>p. 1 \<le> snd p) (accidents_by_hour res @ accidents_by_precip res)"
    by (auto simp: list_all_iff)
  with r show ?thesis by simp
qed

section \<open>Monotonicity of the filter\<close>

lemma update_dashboard_total:
  assumes "update_dashboard srt df sel = Inr res"
  shows "total_accidents res = length (filter (kept sel) (rows df))"
  using aggregate_frame_Inr(4) [OF update_dashboard_Inr(1) [OF assms]]
  by (simp add: rows_keep)

lemma kept_mono: "stronger sel' sel \<Longrightarrow> kept sel' r \<Longrightarrow> kept sel r"
  by (auto simp: kept_def stronger_def strengthens_def truthy_def cat_isin_def
      split: option.splits if_splits)

lemma length_filter_mono:
  "(\<And>x. P x \<Longrightarrow> Q x) \<Longrightarrow> length (filter P xs) \<le> length (filter Q xs)"
  by (induction xs) auto

text \<open>
  C8. For a table that has the columns the callback reads, strengthening a selection
  (a constraint added to a dimension that had none, or values removed from a
  dimension's set with some left) never increases the total: the callback returns for
  both selections and the stronger one's total is at most the weaker one's.
\<close>

theorem stronger_selection_never_counts_more:
  assumes "sorts_desc srt" and "has_cols pipeline_cols df" and "stronger sel' sel"
  shows "\<exists>res res'. update_dashboard srt df sel = Inr res \<and>
           update_dashboard srt df sel' = Inr res' \<and>
           total_accidents res' \<le> total_accidents res"
proof -
  obtain res where r: "update_dashboard srt df sel = Inr res"
    using update_dashboard_ok [OF assms(1,2)] by blast
  obtain res' where r': "update_dashboard srt df sel' = Inr res'"
    using update_dashboard_ok [OF assms(1,2)] by blast
  have "length (filter (kept sel') (rows df)) \<le> length (filter (kept sel) (rows df))"
    by (rule length_filter_mono) (rule kept_mono [OF assms(3)])
  then have "total_accidents res' \<le> total_accidents res"
    by (simp add: update_dashboard_total [OF r] update_dashboard_total [OF r'])
  with r r' show ?thesis by blast
qed

theorem stronger_selection_never_counts_more_witness:
  "sorts_desc stable_argsort \<and> has_cols pipeline_cols scenario_df \<and>
   stronger ny_only no_filters \<and>
   map_sum id total_accidents (update_dashboard stable_argsort scenario_df no_filters) = Inr 3 \<and>
   map_sum id total_accidents (update_dashboard stable_argsort scenario_df ny_only) = Inr 1"
proof -
  have s: "stronger ny_only no_filters"
    by (simp add: stronger_def strengthens_def ny_only_def no_filters_def)
  from stronger_selection_never_counts_more [OF sorts_desc_stable scenario_df_cols s]
  obtain res res' where r: "update_dashboard stable_argsort scenario_df no_filters = Inr res"
    and r': "update_dashboard stable_argsort scenario_df ny_only = Inr res'"
    by blast
  have "total_accidents res = 3"
    unfolding update_dashboard_total [OF r]
    by (simp add: kept_def no_filters_def truthy_def scenario_df_def scenario_raw_def
        scenario_rows_def add_precip_bin_def add_hour_group_def assign_def)
  moreover have "total_accidents res' = 1"
    unfolding update_dashboard_total [OF r']
    by (simp add: kept_def ny_only_def truthy_def scenario_df_def scenario_raw_def
        scenario_rows_def mk_row_def add_precip_bin_def add_hour_group_def assign_def)
  ultimately show ?thesis using r r' s sorts_desc_stable scenario_df_cols by simp
qed

section \<open>The busiest hour group\<close>

lemma unknown_hour_df_cols: "has_cols pipeline_cols unknown_hour_df"
  by (simp add: has_cols_def pipeline_cols_def unknown_hour_df_def unknown_hour_raw_def
      add_precip_bin_def add_hour_group_def assign_def)

text \<open>
  C9, as the code has it. The counts of a categorical column list all four hour groups,
  with count 0 for a group no row is in, so \<^verbatim>\<open>idxmax\<close> always has a result: for a table
  that has the columns the callback reads the callback returns, the busiest hour group
  is the marker \<^verbatim>\<open>N/A\<close> when no row is left and one of the four labels otherwise, also
  when every row left has an undefined hour group.
\<close>

theorem busiest_hour_group_always_defined:
  assumes "sorts_desc srt" and "has_cols pipeline_cols df"
  shows "\<exists>res. update_dashboard srt df sel = Inr res \<and>
           (if total_accidents res = 0 then busiest_hour_group res = Label ''N/A''
            else busiest_hour_group res \<in> Label ` set hour_labels)"
proof -
  obtain res where r: "update_dashboard srt df sel = Inr res"
    using update_dashboard_ok [OF assms] by blast
  let ?f = "keep (kept sel) df"
  note a = aggregate_frame_Inr [OF update_dashboard_Inr(1) [OF r]]
  have "''Hour_Group'' \<in> set (columns ?f)"
    using a(1) by (simp add: has_cols_def pipeline_cols_def)
  from kpi_hour_group_ok [OF assms(1) this] a(3)
  have "if rows ?f = [] then busiest_hour_group res = Label ''N/A''
        else busiest_hour_group res \<in> Label ` set hour_labels"
    by auto
  then have "if total_accidents res = 0 then busiest_hour_group res = Label ''N/A''
        else busiest_hour_group res \<in> Label ` set hour_labels"
    unfolding a(4) by simp
  with r show ?thesis by blast
qed

theorem busiest_hour_group_always_defined_witness:
  "sorts_desc stable_argsort \<and> has_cols pipeline_cols unknown_hour_df \<and>
   map Hour_Group (rows unknown_hour_df) = [None] \<and>
   (\<exists>res. update_dashboard stable_argsort unknown_hour_df no_filters = Inr res \<and>
      total_accidents res = 1 \<and> busiest_hour_group res \<in> Label ` set hour_labels)"
proof -
  from busiest_hour_group_always_defined [OF sorts_desc_stable unknown_hour_df_cols]
  obtain res where r: "update_dashboard stable_argsort unknown_hour_df no_filters = Inr res"
    and b: "if total_accidents res = 0 then busiest_hour_group res = Label ''N/A''
            else busiest_hour_group res \<in> Label ` set hour_labels"
    by blast
  have t: "total_accidents res = 1"
    unfolding update_dashboard_total [OF r]
    by (simp add: kept_def no_filters_def truthy_def unknown_hour_df_def unknown_hour_raw_def
        add_precip_bin_def add_hour_group_def assign_def)
  have h: "map Hour_Group (rows unknown_hour_df) = [None]"
    by (simp add: unknown_hour_df_def unknown_hour_raw_def mk_row_def add_precip_bin_def
        add_hour_group_def assign_def cut_cell_def)
  from b t have "busiest_hour_group res \<in> Label ` set hour_labels" by simp
  with r t h sorts_desc_stable unknown_hour_df_cols show ?thesis by blast
qed

theorem busiest_hour_group_undefined_hours_counterexample:
  "prepare unknown_hour_raw = Inr unknown_hour_df \<and>
   map Hour_Group (rows unknown_hour_df) = [None] \<and>
   map_sum id (\<lambda>res. (total_accidents res, busiest_hour_group res))
     (update_dashboard stable_argsort unknown_hour_df no_filters) = Inr (1, Label ''Night'')"
  by code_simp

section \<open>The top states\<close>

lemma groupby_size_props:
  "length (groupby_size col) = card (set col)"
  "distinct (map fst (groupby_size col))"
  "p \<in> set (groupby_size col) \<Longrightarrow> snd p = count_list col (fst p)"
proof -
  show "length (groupby_size col) = card (set col)"
    by (simp add: groupby_size_def length_remdups_card_conv)
  have "map fst (groupby_size col) = sort (remdups col)"
    by (simp add: groupby_size_def comp_def)
  then show "distinct (map fst (groupby_size col))" by simp
  show "p \<in> set (groupby_size col) \<Longrightarrow> snd p = count_list col (fst p)"
    by (auto simp: groupby_size_def)
qed

lemma distinct_fst_sort_values_desc:
  assumes "sorts_desc srt" and "distinct (map fst tbl)"
  shows "distinct (map fst (sort_values_desc srt tbl))"
proof -
  have "mset (map fst (sort_values_desc srt tbl)) = mset (map fst tbl)"
    using sort_values_desc_props(1) [OF assms(1), of tbl] by (metis mset_map)
  then show ?thesis using assms(2) by (metis mset_eq_imp_distinct_iff)
qed

text \<open>
  C6, as the code has it. With a sorting routine that keeps the library's promise,
  whenever the callback returns a result its list of top states has at most 10 entries
  and at most as many as there are distinct states among the filtered rows, no state is
  listed twice, each entry's count is the number of filtered rows of that state, and the
  counts never increase along the list. The order among states of equal count is the
  sorting routine's.
\<close>

theorem top_states_bounded_and_descending:
  assumes "sorts_desc srt" and "update_dashboard srt df sel = Inr res"
  shows "length (accidents_by_state res) \<le> 10 \<and>
         length (accidents_by_state res) \<le> card (State ` set (map_rows res)) \<and>
         distinct (map fst (accidents_by_state res)) \<and>
         list_all (\<lambda>p. snd p = length (filter (\<lambda>r. State r = fst p) (map_rows res)))
           (accidents_by_state res) \<and>
         sorted_wrt (\<lambda>a b. snd b \<le> snd a) (accidents_by_state res)"
proof -
  note a = aggregate_frame_Inr [OF update_dashboard_Inr(1) [OF assms(2)]]
  let ?rows = "map_rows res"
  let ?tbl = "groupby_size (map State ?rows)"
  let ?srt = "sort_values_desc srt ?tbl"
  have top: "accidents_by_state res = take 10 ?srt" using a(8) a(9) by simp
  have "length ?srt = card (State ` set ?rows)"
    by (simp add: length_sort_values_desc [OF assms(1)] groupby_size_props(1))
  then have l: "length (take 10 ?srt) \<le> card (State ` set ?rows)" by simp
  have "distinct (map fst ?srt)"
    by (rule distinct_fst_sort_values_desc [OF assms(1) groupby_size_props(2)])
  then have d: "distinct (map fst (take 10 ?srt))" by (simp add: take_map [symmetric])
  have c: "list_all (\<lambda>p. snd p = length (filter (\<lambda>r. State r = fst p) ?rows)) (take 10 ?srt)"
  proof -
    have "snd p = length (filter (\<lambda>r. State r = fst p) ?rows)" if "p \<in> set (take 10 ?srt)" for p
    proof -
      from that have "p \<in> set ?srt" by (rule in_set_takeD)
      then have "p \<in> set ?tbl" by (simp add: set_sort_values_desc [OF assms(1)])
      then show ?thesis by (simp add: groupby_size_props(3) count_list_map)
    qed
    then show ?thesis by (simp add: list_all_iff)
  qed
  have s: "sorted_wrt (\<lambda>a b. snd b \<le> snd a) (take 10 ?srt)"
    by (rule sorted_wrt_take [OF sort_values_desc_props(2) [OF assms(1)]])
  show ?thesis unfolding top using l d c s by simp
qed

theorem top_states_bounded_and_descending_witness:
  "sorts_desc stable_argsort \<and>
   \<not> isl (update_dashboard stable_argsort scenario_df no_filters) \<and>
   map_sum id (\<lambda>res. length (accidents_by_state res) \<le> 10 \<and>
                     sorted_wrt (\<lambda>a b. snd b \<le> snd a) (accidents_by_state res))
     (update_dashboard stable_argsort scenario_df no_filters) = Inr True"
proof -
  obtain res where r: "update_dashboard stable_argsort scenario_df no_filters = Inr res"
    using scenario_returns by blast
  from top_states_bounded_and_descending [OF sorts_desc_stable r] r sorts_desc_stable
  show ?thesis by simp
qed

text \<open>Four states, AK and AL with one accident each, AR and AZ with two each, and the
  routine that sorts ascending and reads the result backwards: the grouped table lists
  AR before AZ and AK before AL, the top states list AZ before AR and AL before AK.\<close>

theorem top_states_tie_order_counterexample:
  "sorts_desc reversing_argsort \<and>
   prepare pairs_raw = Inr pairs_df \<and>
   groupby_size (map State (rows pairs_df)) =
     [(''AK'', 1), (''AL'', 1), (''AR'', 2), (''AZ'', 2)] \<and>
   map_sum id accidents_by_state (update_dashboard reversing_argsort pairs_df no_filters) =
     Inr [(''AZ'', 2), (''AR'', 2), (''AL'', 1), (''AK'', 1)]"
proof -
  have "prepare pairs_raw = Inr pairs_df" by code_simp
  moreover have "groupby_size (map State (rows pairs_df)) =
     [(''AK'', 1), (''AL'', 1), (''AR'', 2), (''AZ'', 2)]" by code_simp
  moreover have
    "map_sum id accidents_by_state (update_dashboard reversing_argsort pairs_df no_filters) =
     Inr [(''AZ'', 2), (''AR'', 2), (''AL'', 1), (''AK'', 1)]" by code_simp
  ultimately show ?thesis using sorts_desc_reversing by simp
qed

section \<open>What preparation changes\<close>

lemma rows_assign: "rows (assign name upd df) = map upd (rows df)"
  by (simp add: assign_def)

lemma columns_assign:
  "columns (assign name upd df) =
     columns df @ filter (\<lambda>c. c \<notin> set (columns df)) [name]"
  by (simp add: assign_def)

text \<open>
  C5, as the code has it. When preparation succeeds it keeps every row, in order, and
  every field of the raw table other than the derived ones; it appends to the column
  index, after the raw columns, those of \<^verbatim>\<open>Hour\<close>, \<^verbatim>\<open>Hour_Group\<close> and (only when
  the raw table has a precipitation column) \<^verbatim>\<open>Precipitation_Bin\<close> that the raw table
  does not have yet. An \<^verbatim>\<open>Hour\<close> column of the raw table is kept, a missing one is filled
  from \<^verbatim>\<open>Start_Time\<close>; \<^verbatim>\<open>Hour_Group\<close> is always computed from the hour, and
  \<^verbatim>\<open>Precipitation_Bin\<close> from the precipitation amount when that column exists.
\<close>

theorem prepare_keeps_rows_and_raw_columns:
  assumes "prepare raw = Inr df"
  shows "length (rows df) = length (rows raw) \<and>
         columns df =
           columns raw @ filter (\<lambda>c. c \<notin> set (columns raw)) (derived_columns raw) \<and>
         map State (rows df) = map State (rows raw) \<and>
         map Severity (rows df) = map Severity (rows raw) \<and>
         map City (rows df) = map City (rows raw) \<and>
         map Start_Lat (rows df) = map Start_Lat (rows raw) \<and>
         map Start_Lng (rows df) = map Start_Lng (rows raw) \<and>
         map Start_Time (rows df) = map Start_Time (rows raw) \<and>
         map Precipitation (rows df) = map Precipitation (rows raw) \<and>
         map Hour (rows df) =
           (if ''Hour'' \<in> set (columns raw) then map Hour (rows raw)
            else map (\<lambda>r. map_option of_nat (Start_Time r)) (rows raw)) \<and>
         map Hour_Group (rows df) = map (\<lambda>r. cut_cell hour_bins hour_labels (Hour r)) (rows df) \<and>
         map Precipitation_Bin (rows df) =
           (if ''Precipitation(in)'' \<in> set (columns raw)
            then map (\<lambda>r. cut_cell precip_bins precip_labels (Precipitation r)) (rows raw)
            else map Precipitation_Bin (rows raw))"
proof (cases "''Hour'' \<in> set (columns raw)")
  case True
  with assms have df: "df = add_precip_bin (add_hour_group raw)"
    by (simp add: prepare_def ensure_hour_def)
  show ?thesis
    unfolding df using True
    by (simp add: add_precip_bin_def add_hour_group_def rows_assign columns_assign
        derived_columns_def comp_def)
next
  case False
  with assms have st: "''Start_Time'' \<in> set (columns raw)"
    by (auto simp: prepare_def ensure_hour_def getcol_def split: if_splits)
  with assms False have df:
    "df = add_precip_bin (add_hour_group
            (assign ''Hour'' (\<lambda>r. r\<lparr>Hour := map_option of_nat (Start_Time r)\<rparr>) raw))"
    by (simp add: prepare_def ensure_hour_def getcol_def)
  show ?thesis
    unfolding df using False
    by (simp add: add_precip_bin_def add_hour_group_def rows_assign columns_assign
        derived_columns_def comp_def)
qed

theorem prepare_keeps_rows_and_raw_columns_witness:
  "\<not> isl (prepare scenario_raw) \<and>
   map_sum id (\<lambda>df. (length (rows df), columns df, map State (rows df))) (prepare scenario_raw) =
     Inr (3, [''State'', ''Severity'', ''City'', ''Start_Lat'', ''Start_Lng'', ''Hour'',
              ''Precipitation(in)'', ''Hour_Group'', ''Precipitation_Bin''],
          [''CA'', ''CA'', ''NY''])"
proof -
  have p: "prepare scenario_raw = Inr scenario_df" by (rule prepare_scenario)
  from prepare_keeps_rows_and_raw_columns [OF p]
  have "length (rows scenario_df) = length (rows scenario_raw)"
    "columns scenario_df =
       columns scenario_raw @
       filter (\<lambda>c. c \<notin> set (columns scenario_raw)) (derived_columns scenario_raw)"
    "map State (rows scenario_df) = map State (rows scenario_raw)"
    by simp_all
  then show ?thesis
    unfolding p
    by (simp add: scenario_raw_def scenario_rows_def mk_row_def derived_columns_def)
qed

text \<open>The table as the real file has it, with \<^verbatim>\<open>Start_Time\<close> and no \<^verbatim>\<open>Hour\<close>, gains a
  third column, \<^verbatim>\<open>Hour\<close>; the table without a precipitation column gains no
  \<^verbatim>\<open>Precipitation_Bin\<close>.\<close>

theorem prepare_columns_counterexample:
  "map_sum id columns (prepare timestamp_raw) =
     Inr [''State'', ''Severity'', ''City'', ''Start_Lat'', ''Start_Lng'', ''Start_Time'',
          ''Precipitation(in)'', ''Hour'', ''Hour_Group'', ''Precipitation_Bin''] \<and>
   map_sum id columns (prepare no_precip_raw) =
     Inr [''State'', ''Severity'', ''City'', ''Start_Lat'', ''Start_Lng'', ''Hour'',
          ''Hour_Group'']"
  by code_simp

section \<open>The degraded outputs\<close>

text \<open>
  C2, at the scenario table with the hour group \<^verbatim>\<open>Morning\<close> selected. No row is left.
  The callback returns: the total is 0, both markers are \<^verbatim>\<open>N/A\<close>, every table and the
  map subset are empty. The mean precipitation, though, is NaN, not 0: line 112 guards
  the missing column only, not the empty column.
\<close>

theorem no_row_left_mean_is_nan:
  "update_dashboard stable_argsort scenario_df morning_only =
     Inr \<lparr>total_accidents = 0, most_common_severity = Label ''N/A'',
          busiest_hour_group = Label ''N/A'', avg_precip = NaN, severity_counts = [],
          accidents_by_hour = [], accidents_by_precip = [], accidents_by_state = [],
          map_rows = []\<rparr>"
  by code_simp

text \<open>
  C3, at the scenario table without its precipitation column. Preparation succeeds and
  adds no \<^verbatim>\<open>Precipitation_Bin\<close>; the callback then raises \<^verbatim>\<open>KeyError\<close> at the group-by of
  line 137 when no bin is selected, and at the filter of line 106 when one is.
\<close>

theorem missing_precipitation_column_raises:
  "prepare no_precip_raw = Inr no_precip_df \<and>
   ''Precipitation_Bin'' \<notin> set (columns no_precip_df) \<and>
   update_dashboard stable_argsort no_precip_df no_filters =
     Inl (KeyError ''Precipitation_Bin'') \<and>
   update_dashboard stable_argsort no_precip_df light_only =
     Inl (KeyError ''Precipitation_Bin'')"
  by code_simp

text \<open>
  C4, at the scenario table. With no filter the mean is that of the two known amounts,
  1/10. With the state \<^verbatim>\<open>NY\<close> selected one row is left, its amount is missing, and the
  mean is NaN, not 0.
\<close>

theorem mean_of_missing_amounts_is_nan:
  "map_sum id avg_precip (update_dashboard stable_argsort scenario_df no_filters) =
     Inr (Float (1 / 10)) \<and>
   map_sum id (\<lambda>res. (total_accidents res, avg_precip res))
     (update_dashboard stable_argsort scenario_df ny_only) = Inr (1, NaN)"
  by code_simp

section \<open>Further properties of the callback\<close>

text \<open>
  X1. On a table without a \<^verbatim>\<open>Precipitation_Bin\<close> column the callback raises for every
  selection and sorting routine; preparation leaves a raw table without a precipitation
  column (and without a bin column of its own) in that state.
\<close>

theorem no_bin_column_always_raises:
  assumes "''Precipitation(in)'' \<notin> set (columns raw)"
    and "''Precipitation_Bin'' \<notin> set (columns raw)"
    and "prepare raw = Inr df"
  shows "isl (update_dashboard srt df sel)"
proof (rule ccontr)
  assume "\<not> isl (update_dashboard srt df sel)"
  then obtain res where "update_dashboard srt df sel = Inr res"
    by (cases "update_dashboard srt df sel") auto
  then have "has_cols pipeline_cols df" by (rule update_dashboard_Inr(2))
  then have "''Precipitation_Bin'' \<in> set (columns df)"
    by (simp add: has_cols_def pipeline_cols_def)
  moreover have "''Precipitation_Bin'' \<notin> set (columns df)"
    using assms
    by (auto simp: prepare_def ensure_hour_def getcol_def add_precip_bin_def add_hour_group_def
        assign_def split: if_splits)
  ultimately show False by simp
qed

theorem no_bin_column_always_raises_witness:
  "''Precipitation(in)'' \<notin> set (columns no_precip_raw) \<and>
   ''Precipitation_Bin'' \<notin> set (columns no_precip_raw) \<and>
   prepare no_precip_raw = Inr no_precip_df \<and>
   isl (update_dashboard stable_argsort no_precip_df ny_only)"
proof -
  have a: "''Precipitation(in)'' \<notin> set (columns no_precip_raw)"
    and b: "''Precipitation_Bin'' \<notin> set (columns no_precip_raw)"
    by (simp_all add: no_precip_raw_def)
  have p: "prepare no_precip_raw = Inr no_precip_df"
    by (simp add: prepare_def ensure_hour_def no_precip_df_def no_precip_raw_def)
  from no_bin_column_always_raises [OF a b p] a b p show ?thesis by simp
qed

lemma mean_Nil: "mean [] = NaN"
  by (simp add: mean_def)

text \<open>
  X2. Whenever the callback returns a result whose total is 0, both markers are
  \<^verbatim>\<open>N/A\<close>, the severity distribution, the three grouped tables and the map subset are
  empty, and the mean precipitation is NaN when the table has a precipitation column
  and 0 when it has none.
\<close>

theorem no_row_left_outputs:
  assumes "update_dashboard srt df sel = Inr res" and "total_accidents res = 0"
  shows "most_common_severity res = Label ''N/A'' \<and>
         busiest_hour_group res = Label ''N/A'' \<and>
         avg_precip res =
           (if ''Precipitation(in)'' \<in> set (columns df) then NaN else Float 0) \<and>
         severity_counts res = [] \<and> accidents_by_hour res = [] \<and>
         accidents_by_precip res = [] \<and> accidents_by_state res = [] \<and> map_rows res = []"
proof -
  let ?f = "keep (kept sel) df"
  have agg: "aggregate_frame srt ?f = Inr res" by (rule update_dashboard_Inr(1) [OF assms(1)])
  note a = aggregate_frame_Inr [OF agg]
  have e: "rows ?f = []" using a(4) assms(2) by simp
  from agg obtain sev busiest where k: "kpi_severity ?f = Inr sev"
    "kpi_hour_group srt ?f = Inr busiest" "charts srt ?f sev busiest = Inr res"
    by (auto simp: aggregate_frame_def split: sum.splits)
  have sev: "sev = Label ''N/A''" using k(1) e by (simp add: kpi_severity_def)
  have busiest: "busiest = Label ''N/A''" using k(2) e by (simp add: kpi_hour_group_def)
  have p: "kpi_precip ?f = (if ''Precipitation(in)'' \<in> set (columns df) then NaN else Float 0)"
    using e by (simp add: kpi_precip_def columns_keep mean_Nil)
  show ?thesis
    unfolding charts_Inr(2) [OF k(3)] using e sev busiest p
    by (simp add: percentages_def value_counts_int_def sort_values_desc_Nil
        groupby_size_cat_def category_counts_def groupby_size_def)
qed

theorem no_row_left_outputs_witness:
  "\<not> isl (update_dashboard stable_argsort scenario_df morning_only) \<and>
   map_sum id (\<lambda>res. (total_accidents res, most_common_severity res, avg_precip res,
                      accidents_by_state res))
     (update_dashboard stable_argsort scenario_df morning_only) =
     Inr (0, Label ''N/A'', NaN, [])"
proof -
  obtain res where r: "update_dashboard stable_argsort scenario_df morning_only = Inr res"
    using scenario_returns by blast
  have t: "total_accidents res = 0"
    unfolding update_dashboard_total [OF r]
    by (simp add: kept_def morning_only_def truthy_def cat_isin_def scenario_df_def
        scenario_raw_def scenario_rows_def mk_row_def add_precip_bin_def add_hour_group_def
        assign_def cut_cell_def hour_bins_def hour_labels_def)
  have c: "''Precipitation(in)'' \<in> set (columns scenario_df)"
    by (simp add: scenario_df_def scenario_raw_def add_precip_bin_def add_hour_group_def
        assign_def)
  from no_row_left_outputs [OF r t] c r t show ?thesis by simp
qed

lemma mean_NaN_iff: "mean col = NaN \<longleftrightarrow> list_all (\<lambda>v. v = None) col"
proof -
  have "concat (map (\<lambda>v. case v of None \<Rightarrow> [] | Some x \<Rightarrow> [x]) col) = [] \<longleftrightarrow>
        list_all (\<lambda>v. v = None) col"
    by (induction col) (auto split: option.splits)
  then show ?thesis by (simp add: mean_def Let_def)
qed

text \<open>
  X3. Whenever the callback returns a result for a table with a precipitation column,
  the mean precipitation is NaN exactly when no filtered row has an amount (in
  particular when no row is left), and otherwise it is the sum of the amounts present
  divided by their number.
\<close>

theorem mean_precipitation_of_present_amounts:
  assumes "update_dashboard srt df sel = Inr res"
    and "''Precipitation(in)'' \<in> set (columns df)"
  shows "avg_precip res =
           (let xs = concat (map (\<lambda>r. case Precipitation r of None \<Rightarrow> [] | Some x \<Rightarrow> [x])
                              (map_rows res))
            in if list_all (\<lambda>r. Precipitation r = None) (map_rows res) then NaN
               else Float (sum_list xs / of_nat (length xs)))"
proof -
  note a = aggregate_frame_Inr [OF update_dashboard_Inr(1) [OF assms(1)]]
  let ?rows = "map_rows res"
  have "avg_precip res = mean (map Precipitation ?rows)"
    using a(5) a(9) assms(2) by (simp add: kpi_precip_def columns_keep)
  moreover have "mean (map Precipitation ?rows) = NaN \<longleftrightarrow>
      list_all (\<lambda>r. Precipitation r = None) ?rows"
    by (simp add: mean_NaN_iff list_all_iff)
  ultimately show ?thesis
    by (auto simp: mean_def Let_def map_concat comp_def split: if_splits)
qed

theorem mean_precipitation_of_present_amounts_witness:
  "\<not> isl (update_dashboard stable_argsort scenario_df ny_only) \<and>
   ''Precipitation(in)'' \<in> set (columns scenario_df) \<and>
   map_sum id (\<lambda>res. (map Precipitation (map_rows res), avg_precip res))
     (update_dashboard stable_argsort scenario_df ny_only) = Inr ([None], NaN)"
proof -
  obtain res where r: "update_dashboard stable_argsort scenario_df ny_only = Inr res"
    using scenario_returns by blast
  have c: "''Precipitation(in)'' \<in> set (columns scenario_df)"
    by (simp add: scenario_df_def scenario_raw_def add_precip_bin_def add_hour_group_def
        assign_def)
  have m: "map_rows res = filter (kept ny_only) (rows scenario_df)"
    using aggregate_frame_Inr(9) [OF update_dashboard_Inr(1) [OF r]] by (simp add: rows_keep)
  have p: "map Precipitation (map_rows res) = [None]"
    unfolding m
    by (simp add: kept_def ny_only_def truthy_def scenario_df_def scenario_raw_def
        scenario_rows_def mk_row_def add_precip_bin_def add_hour_group_def assign_def)
  then have "list_all (\<lambda>r. Precipitation r = None) (map_rows res)"
    by (auto simp: list_all_iff)
  with mean_precipitation_of_present_amounts [OF r c] have "avg_precip res = NaN"
    by (simp add: Let_def)
  with r c p show ?thesis by simp
qed

end
